theory Spec2Isabelle
  imports Main "HOL-Library.Word" "HOL-Library.Sublist" "HOL-Library.AList"
    "HOL-Library.List_Lexorder" "HOL-Library.Product_Lexorder" "HOL-Library.Multiset"
begin

unbundle bit_operations_syntax

section \<open>Python values\<close>

text \<open>
  A Python \<open>str\<close> is a sequence of Unicode code points (each below \<open>0x110000\<close>, lone
  surrogates included); \<open>bytes\<close> is a sequence of octets. Literals of the source are
  ASCII and are written with \<open>lit\<close>.
\<close>

type_synonym pystr = "nat list"
type_synonym byte = "8 word"
type_synonym bytes = "byte list"
type_synonym u32 = "32 word"

definition lit :: "string \<Rightarrow> pystr" where
  "lit s = map of_char s"

text \<open>
  The exceptions that can leave \<open>validate_init_data\<close>: the module's own
  \<open>ValidationError\<close> (with its message), the \<open>KeyError\<close> of \<open>dict.pop\<close> (with the key)
  and the \<open>UnicodeEncodeError\<close> of \<open>str.encode\<close>.
\<close>

datatype error = ValidationError string | KeyError pystr | UnicodeEncodeError

section \<open>\<open>str.encode('utf-8')\<close>\<close>

text \<open>
  The strict UTF-8 encoder: one to four octets for a code point, and an error for a
  surrogate (\<open>0xD800\<close> to \<open>0xDFFF\<close>).
\<close>

definition utf8_char :: "nat \<Rightarrow> bytes option" where
  "utf8_char c =
     (if c < 0x80 then Some [of_nat c]
      else if c < 0x800 then Some [of_nat (0xC0 + c div 64), of_nat (0x80 + c mod 64)]
      else if 0xD800 \<le> c \<and> c < 0xE000 then None
      else if c < 0x10000 then
        Some [of_nat (0xE0 + c div 4096), of_nat (0x80 + c div 64 mod 64), of_nat (0x80 + c mod 64)]
      else
        Some [of_nat (0xF0 + c div 262144), of_nat (0x80 + c div 4096 mod 64),
              of_nat (0x80 + c div 64 mod 64), of_nat (0x80 + c mod 64)])"

fun encode_utf8 :: "pystr \<Rightarrow> error + bytes" where
  "encode_utf8 [] = Inr []"
| "encode_utf8 (c # cs) =
     (case utf8_char c of
        None \<Rightarrow> Inl UnicodeEncodeError
      | Some bs \<Rightarrow> (case encode_utf8 cs of Inl e \<Rightarrow> Inl e | Inr rest \<Rightarrow> Inr (bs @ rest)))"

section \<open>\<open>hashlib.sha256\<close> and \<open>hmac.new\<close>\<close>

text \<open>SHA-256 as in FIPS 180-4, on 32-bit words.\<close>

definition rotr :: "nat \<Rightarrow> u32 \<Rightarrow> u32" where
  "rotr n x = drop_bit n x OR push_bit (32 - n) x"

definition Ch :: "u32 \<Rightarrow> u32 \<Rightarrow> u32 \<Rightarrow> u32" where
  "Ch x y z = (x AND y) XOR (NOT x AND z)"

definition Maj :: "u32 \<Rightarrow> u32 \<Rightarrow> u32 \<Rightarrow> u32" where
  "Maj x y z = (x AND y) XOR (x AND z) XOR (y AND z)"

definition Sigma0 :: "u32 \<Rightarrow> u32" where
  "Sigma0 x = rotr 2 x XOR rotr 13 x XOR rotr 22 x"

definition Sigma1 :: "u32 \<Rightarrow> u32" where
  "Sigma1 x = rotr 6 x XOR rotr 11 x XOR rotr 25 x"

definition sigma0 :: "u32 \<Rightarrow> u32" where
  "sigma0 x = rotr 7 x XOR rotr 18 x XOR drop_bit 3 x"

definition sigma1 :: "u32 \<Rightarrow> u32" where
  "sigma1 x = rotr 17 x XOR rotr 19 x XOR drop_bit 10 x"

definition K256 :: "u32 list" where
  "K256 = [
  0x428A2F98, 0x71374491, 0xB5C0FBCF, 0xE9B5DBA5, 0x3956C25B, 0x59F111F1, 0x923F82A4, 0xAB1C5ED5,
  0xD807AA98, 0x12835B01, 0x243185BE, 0x550C7DC3, 0x72BE5D74, 0x80DEB1FE, 0x9BDC06A7, 0xC19BF174,
  0xE49B69C1, 0xEFBE4786, 0x0FC19DC6, 0x240CA1CC, 0x2DE92C6F, 0x4A7484AA, 0x5CB0A9DC, 0x76F988DA,
  0x983E5152, 0xA831C66D, 0xB00327C8, 0xBF597FC7, 0xC6E00BF3, 0xD5A79147, 0x06CA6351, 0x14292967,
  0x27B70A85, 0x2E1B2138, 0x4D2C6DFC, 0x53380D13, 0x650A7354, 0x766A0ABB, 0x81C2C92E, 0x92722C85,
  0xA2BFE8A1, 0xA81A664B, 0xC24B8B70, 0xC76C51A3, 0xD192E819, 0xD6990624, 0xF40E3585, 0x106AA070,
  0x19A4C116, 0x1E376C08, 0x2748774C, 0x34B0BCB5, 0x391C0CB3, 0x4ED8AA4A, 0x5B9CCA4F, 0x682E6FF3,
  0x748F82EE, 0x78A5636F, 0x84C87814, 0x8CC70208, 0x90BEFFFA, 0xA4506CEB, 0xBEF9A3F7, 0xC67178F2]"

type_synonym hash_state = "u32 \<times> u32 \<times> u32 \<times> u32 \<times> u32 \<times> u32 \<times> u32 \<times> u32"

definition H0 :: hash_state where
  "H0 = (0x6A09E667, 0xBB67AE85, 0x3C6EF372, 0xA54FF53A,
         0x510E527F, 0x9B05688C, 0x1F83D9AB, 0x5BE0CD19)"

text \<open>The words of a block, big-endian.\<close>

fun be32 :: "bytes \<Rightarrow> u32 list" where
  "be32 (a # b # c # d # bs) =
     (push_bit 24 (ucast a) OR push_bit 16 (ucast b) OR push_bit 8 (ucast c) OR ucast d) # be32 bs"
| "be32 _ = []"

text \<open>
  The message schedule, newest word first: from \<open>[W\<^sub>1\<^sub>5, \<dots>, W\<^sub>0]\<close> to
  \<open>[W\<^sub>6\<^sub>3, \<dots>, W\<^sub>0]\<close> in 48 steps.
\<close>

fun schedule :: "nat \<Rightarrow> u32 list \<Rightarrow> u32 list" where
  "schedule 0 ws = ws"
| "schedule (Suc n) ws =
     schedule n ((sigma1 (ws ! 1) + ws ! 6 + sigma0 (ws ! 14) + ws ! 15) # ws)"

fun round256 :: "hash_state \<Rightarrow> u32 \<Rightarrow> u32 \<Rightarrow> hash_state" where
  "round256 (a, b, c, d, e, f, g, h) k w =
     (let t1 = h + Sigma1 e + Ch e f g + k + w;
          t2 = Sigma0 a + Maj a b c
      in (t1 + t2, a, b, c, d + t1, e, f, g))"

fun rounds :: "u32 list \<Rightarrow> u32 list \<Rightarrow> hash_state \<Rightarrow> hash_state" where
  "rounds (k # ks) (w # ws) s = rounds ks ws (round256 s k w)"
| "rounds _ _ s = s"

fun add_state :: "hash_state \<Rightarrow> hash_state \<Rightarrow> hash_state" where
  "add_state (a, b, c, d, e, f, g, h) (a', b', c', d', e', f', g', h') =
     (a + a', b + b', c + c', d + d', e + e', f + f', g + g', h + h')"

definition compress :: "hash_state \<Rightarrow> bytes \<Rightarrow> hash_state" where
  "compress s blk = add_state s (rounds K256 (rev (schedule 48 (rev (be32 blk)))) s)"

text \<open>
  Padding: the octet \<open>0x80\<close>, zeros up to 56 modulo 64, and the length of the message
  in bits as a 64-bit big-endian number.
\<close>

definition len_bytes :: "64 word \<Rightarrow> bytes" where
  "len_bytes n = map (\<lambda>i. ucast (drop_bit (8 * i) n)) [7, 6, 5, 4, 3, 2, 1, 0]"

definition pad :: "bytes \<Rightarrow> bytes" where
  "pad m = m @ [0x80] @ replicate ((119 - length m mod 64) mod 64) 0
             @ len_bytes (word_of_nat (8 * length m))"

fun blocks :: "nat \<Rightarrow> bytes \<Rightarrow> bytes list" where
  "blocks 0 bs = []"
| "blocks (Suc n) bs = take 64 bs # blocks n (drop 64 bs)"

definition word_bytes :: "u32 \<Rightarrow> bytes" where
  "word_bytes w = [ucast (drop_bit 24 w), ucast (drop_bit 16 w), ucast (drop_bit 8 w), ucast w]"

fun state_bytes :: "hash_state \<Rightarrow> bytes" where
  "state_bytes (a, b, c, d, e, f, g, h) = concat (map word_bytes [a, b, c, d, e, f, g, h])"

definition sha256 :: "bytes \<Rightarrow> bytes" where
  "sha256 m = state_bytes (foldl compress H0 (blocks (length (pad m) div 64) (pad m)))"

text \<open>
  \<open>hmac.new(key, msg, hashlib.sha256).digest()\<close>, RFC 2104 with SHA-256's block size
  of 64 octets: a longer key is hashed first, the key is filled with zeros to a block,
  and the inner and outer pads are \<open>0x36\<close> and \<open>0x5C\<close>.
\<close>

definition hmac_sha256 :: "bytes \<Rightarrow> bytes \<Rightarrow> bytes" where
  "hmac_sha256 key msg =
     (let k0 = (if 64 < length key then sha256 key else key);
          k = k0 @ replicate (64 - length k0) 0
      in sha256 (map (\<lambda>b. b XOR 0x5C) k @ sha256 (map (\<lambda>b. b XOR 0x36) k @ msg)))"

text \<open>\<open>hexdigest\<close>: two lowercase hexadecimal digits for an octet.\<close>

definition hexdigit :: "nat \<Rightarrow> char" where
  "hexdigit n = ''0123456789abcdef'' ! n"

definition hex :: "bytes \<Rightarrow> string" where
  "hex bs = concat (map (\<lambda>b. [hexdigit (unat b div 16), hexdigit (unat b mod 16)]) bs)"

section \<open>The helpers of the module\<close>

definition secret_key :: "pystr \<Rightarrow> error + bytes" where
  "secret_key bot_token =
     (case encode_utf8 bot_token of
        Inl e \<Rightarrow> Inl e
      | Inr token_bytes \<Rightarrow> Inr (hmac_sha256 (map of_char ''WebAppData'') token_bytes))"

definition hmac_hash :: "bytes \<Rightarrow> pystr \<Rightarrow> error + pystr" where
  "hmac_hash key data_check_string =
     (case encode_utf8 data_check_string of
        Inl e \<Rightarrow> Inl e
      | Inr msg \<Rightarrow> Inr (lit (hex (hmac_sha256 key msg))))"

section \<open>Strings, \<open>urllib.parse.parse_qsl\<close>, \<open>dict\<close> and \<open>int\<close>\<close>

text \<open>
  \<open>x in s\<close> on strings is \<^const>\<open>sublist\<close>: \<open>x\<close> occurs in \<open>s\<close> as a contiguous run.
  \<open>s.split(sep)\<close> for a separator of one character:
\<close>

fun split_on :: "nat \<Rightarrow> pystr \<Rightarrow> pystr list" where
  "split_on sep [] = [[]]"
| "split_on sep (c # cs) =
     (if c = sep then [] # split_on sep cs
      else (case split_on sep cs of [] \<Rightarrow> [[c]] | s # ss \<Rightarrow> (c # s) # ss))"

text \<open>\<open>s.partition(sep)\<close>: the text before the first separator, the separator if any, the rest.\<close>

definition partition_on :: "nat \<Rightarrow> pystr \<Rightarrow> pystr \<times> pystr \<times> pystr" where
  "partition_on sep s =
     (takeWhile (\<lambda>c. c \<noteq> sep) s,
      take 1 (dropWhile (\<lambda>c. c \<noteq> sep) s),
      drop 1 (dropWhile (\<lambda>c. c \<noteq> sep) s))"

text \<open>\<open>sep.join(xs)\<close>.\<close>

fun join :: "pystr \<Rightarrow> pystr list \<Rightarrow> pystr" where
  "join sep [] = []"
| "join sep [x] = x"
| "join sep (x # y # zs) = x @ sep @ join sep (y # zs)"

text \<open>
  \<open>urllib.parse.unquote_to_bytes\<close> on ASCII text: \<open>%\<close> and two hexadecimal digits are
  one octet, any other \<open>%\<close> stays.
\<close>

definition hexval :: "nat \<Rightarrow> nat option" where
  "hexval c =
     (if 0x30 \<le> c \<and> c \<le> 0x39 then Some (c - 0x30)
      else if 0x41 \<le> c \<and> c \<le> 0x46 then Some (c - 0x37)
      else if 0x61 \<le> c \<and> c \<le> 0x66 then Some (c - 0x57)
      else None)"

fun unquote_to_bytes :: "pystr \<Rightarrow> bytes" where
  "unquote_to_bytes [] = []"
| "unquote_to_bytes (c # cs) =
     (if c = 0x25 then
        (case cs of
           h # l # rest \<Rightarrow>
             (case (hexval h, hexval l) of
                (Some x, Some y) \<Rightarrow> of_nat (16 * x + y) # unquote_to_bytes rest
              | _ \<Rightarrow> 0x25 # unquote_to_bytes cs)
         | _ \<Rightarrow> 0x25 # unquote_to_bytes cs)
      else of_nat c # unquote_to_bytes cs)"

text \<open>
  \<open>bytes.decode('utf-8', 'replace')\<close>: every maximal ill-formed run of octets becomes
  one \<open>U+FFFD\<close>. Overlong forms, surrogates and values above \<open>0x10FFFF\<close> are ill-formed.
\<close>

definition cont :: "nat \<Rightarrow> bool" where
  "cont b = (0x80 \<le> b \<and> b < 0xC0)"

fun decode_octets :: "nat list \<Rightarrow> pystr" where
  "decode_octets [] = []"
| "decode_octets (b # bs) =
     (if b < 0x80 then b # decode_octets bs
      else if b < 0xC2 then 0xFFFD # decode_octets bs
      else if b < 0xE0 then
        (case bs of
           [] \<Rightarrow> [0xFFFD]
         | b2 # r2 \<Rightarrow>
             if cont b2 then ((b - 0xC0) * 64 + (b2 - 0x80)) # decode_octets r2
             else 0xFFFD # decode_octets bs)
      else if b < 0xF0 then
        (case bs of
           [] \<Rightarrow> [0xFFFD]
         | b2 # r2 \<Rightarrow>
             if \<not> cont b2 \<or> (b = 0xE0 \<and> b2 < 0xA0) \<or> (b = 0xED \<and> 0xA0 \<le> b2)
             then 0xFFFD # decode_octets bs
             else
               (case r2 of
                  [] \<Rightarrow> [0xFFFD]
                | b3 # r3 \<Rightarrow>
                    if cont b3
                    then ((b - 0xE0) * 4096 + (b2 - 0x80) * 64 + (b3 - 0x80)) # decode_octets r3
                    else 0xFFFD # decode_octets r2))
      else if b < 0xF5 then
        (case bs of
           [] \<Rightarrow> [0xFFFD]
         | b2 # r2 \<Rightarrow>
             if \<not> cont b2 \<or> (b = 0xF0 \<and> b2 < 0x90) \<or> (b = 0xF4 \<and> 0x90 \<le> b2)
             then 0xFFFD # decode_octets bs
             else
               (case r2 of
                  [] \<Rightarrow> [0xFFFD]
                | b3 # r3 \<Rightarrow>
                    if \<not> cont b3 then 0xFFFD # decode_octets r2
                    else
                      (case r3 of
                         [] \<Rightarrow> [0xFFFD]
                       | b4 # r4 \<Rightarrow>
                           if cont b4
                           then ((b - 0xF0) * 262144 + (b2 - 0x80) * 4096 + (b3 - 0x80) * 64
                                 + (b4 - 0x80)) # decode_octets r4
                           else 0xFFFD # decode_octets r3)))
      else 0xFFFD # decode_octets bs)"

definition decode_utf8 :: "bytes \<Rightarrow> pystr" where
  "decode_utf8 bs = decode_octets (map unat bs)"

text \<open>
  \<open>urllib.parse.unquote\<close>: a string without \<open>%\<close> is returned as it is; otherwise every
  maximal run of ASCII characters is unquoted to octets and decoded, and the characters
  between the runs are kept.
\<close>

function unquote_parts :: "pystr \<Rightarrow> pystr" where
  "unquote_parts [] = []"
| "unquote_parts (c # cs) =
     (if c < 0x80 then
        decode_utf8 (unquote_to_bytes (c # takeWhile (\<lambda>x. x < 0x80) cs))
          @ unquote_parts (dropWhile (\<lambda>x. x < 0x80) cs)
      else c # unquote_parts cs)"
  by pat_completeness auto
termination
  by (relation "measure length") (auto simp: length_dropWhile_le le_imp_less_Suc)

definition unquote :: "pystr \<Rightarrow> pystr" where
  "unquote s = (if 0x25 \<notin> set s then s else unquote_parts s)"

definition unquote_plus :: "pystr \<Rightarrow> pystr" where
  "unquote_plus s = unquote (map (\<lambda>c. if c = 0x2B then 0x20 else c) s)"

text \<open>
  \<open>urllib.parse.parse_qsl(qs)\<close> with its defaults: the fields are separated by \<open>&\<close>; an
  empty field, a field without \<open>=\<close> and a field with an empty value are skipped
  (\<open>keep_blank_values=False\<close>, \<open>strict_parsing=False\<close>); name and value are unquoted.
\<close>

fun parse_fields :: "pystr list \<Rightarrow> (pystr \<times> pystr) list" where
  "parse_fields [] = []"
| "parse_fields (name_value # rest) =
     (if name_value \<noteq> [] then
        (case partition_on 0x3D name_value of
           (name, has_eq, v) \<Rightarrow>
             if v \<noteq> [] then (unquote_plus name, unquote_plus v) # parse_fields rest
             else parse_fields rest)
      else parse_fields rest)"

definition parse_qsl :: "pystr \<Rightarrow> (pystr \<times> pystr) list" where
  "parse_qsl qs = (if qs = [] then [] else parse_fields (split_on 0x26 qs))"

text \<open>
  \<open>dict(pairs)\<close>: a dictionary keeps its keys in the order of their first insertion, and
  a later value replaces an earlier one in place. It is an association list with distinct
  keys; \<open>d.get(k)\<close> is \<^const>\<open>map_of\<close>, \<open>d.pop(k)\<close> removes with \<^const>\<open>AList.delete\<close>.
\<close>

definition dict_of :: "('k \<times> 'v) list \<Rightarrow> ('k \<times> 'v) list" where
  "dict_of ps = foldl (\<lambda>d (k, v). AList.update k v d) [] ps"

text \<open>
  \<open>int(s)\<close> for a string, base 10. Unicode white space becomes a blank and a Unicode
  decimal digit its ASCII digit (the digits of Unicode 14 are the ten code points from
  each of the zeros below); any other character from \<open>0x7F\<close> on becomes \<open>?\<close>. Then: ASCII
  white space, an optional sign, digits with single underscores between them, ASCII white
  space. More than 4300 digits are refused (\<open>sys.int_info.default_max_str_digits\<close>).
  \<open>None\<close> stands for \<open>ValueError\<close>.
\<close>

definition unicode_space :: "nat \<Rightarrow> bool" where
  "unicode_space c =
     (c \<in> set [0x85, 0xA0, 0x1680, 0x2028, 0x2029, 0x202F, 0x205F, 0x3000]
      \<or> (0x2000 \<le> c \<and> c \<le> 0x200A))"

definition decimal_zeros :: "nat list" where
  "decimal_zeros =
    [
     0x30, 0x660, 0x6f0, 0x7c0, 0x966, 0x9e6, 0xa66, 0xae6, 0xb66, 0xbe6,
     0xc66, 0xce6, 0xd66, 0xde6, 0xe50, 0xed0, 0xf20, 0x1040, 0x1090, 0x17e0,
     0x1810, 0x1946, 0x19d0, 0x1a80, 0x1a90, 0x1b50, 0x1bb0, 0x1c40, 0x1c50, 0xa620,
     0xa8d0, 0xa900, 0xa9d0, 0xa9f0, 0xaa50, 0xabf0, 0xff10, 0x104a0, 0x10d30, 0x11066,
     0x110f0, 0x11136, 0x111d0, 0x112f0, 0x11450, 0x114d0, 0x11650, 0x116c0, 0x11730, 0x118e0,
     0x11950, 0x11c50, 0x11d50, 0x11da0, 0x16a60, 0x16ac0, 0x16b50, 0x1d7ce, 0x1d7d8, 0x1d7e2,
     0x1d7ec, 0x1d7f6, 0x1e140, 0x1e2f0, 0x1e950, 0x1fbf0]"

definition unicode_decimal :: "nat \<Rightarrow> nat option" where
  "unicode_decimal c =
     (case filter (\<lambda>z. z \<le> c \<and> c < z + 10) decimal_zeros of
        [] \<Rightarrow> None
      | z # _ \<Rightarrow> Some (c - z))"

definition to_ascii :: "nat \<Rightarrow> nat" where
  "to_ascii c =
     (if c < 0x7F then c
      else if unicode_space c then 0x20
      else (case unicode_decimal c of None \<Rightarrow> 0x3F | Some d \<Rightarrow> 0x30 + d))"

definition py_isspace :: "nat \<Rightarrow> bool" where
  "py_isspace c = (c = 0x20 \<or> (0x09 \<le> c \<and> c \<le> 0x0D))"

definition is_digit :: "nat \<Rightarrow> bool" where
  "is_digit c = (0x30 \<le> c \<and> c \<le> 0x39)"

fun double_underscore :: "nat list \<Rightarrow> bool" where
  "double_underscore (a # b # cs) = ((a = 0x5F \<and> b = 0x5F) \<or> double_underscore (b # cs))"
| "double_underscore _ = False"

definition digits_value :: "nat list \<Rightarrow> int" where
  "digits_value ds = foldl (\<lambda>n d. 10 * n + int (d - 0x30)) 0 ds"

definition max_str_digits :: nat where
  "max_str_digits = 4300"

definition py_int :: "pystr \<Rightarrow> int option" where
  "py_int s =
     (let t = dropWhile py_isspace (map to_ascii s);
          negative = (take 1 t = [0x2D]);
          u = (if take 1 t = [0x2B] \<or> take 1 t = [0x2D] then drop 1 t else t);
          body = takeWhile (\<lambda>c. is_digit c \<or> c = 0x5F) u;
          rest = dropWhile (\<lambda>c. is_digit c \<or> c = 0x5F) u;
          ds = filter is_digit body
      in if body = [] \<or> hd body = 0x5F \<or> last body = 0x5F \<or> double_underscore body
            \<or> dropWhile py_isspace rest \<noteq> [] \<or> max_str_digits < length ds
         then None
         else Some (if negative then - digits_value ds else digits_value ds))"

section \<open>\<open>validate_init_data\<close>\<close>

definition data_requirements :: "string list" where
  "data_requirements = [''user'', ''chat_instance'', ''chat_type'', ''auth_date'', ''hash'']"

text \<open>The loop over the required names: the first one that is missing raises.\<close>

fun check_requirements :: "string list \<Rightarrow> pystr \<Rightarrow> error option" where
  "check_requirements [] init_data = None"
| "check_requirements (data_req # rest) init_data =
     (if \<not> sublist (lit data_req) init_data
      then Some (ValidationError (''Invalid format: Missing '' @ data_req @ '' in init_data.''))
      else check_requirements rest init_data)"

text \<open>The canonical string of a dictionary: its items sorted, \<open>k=v\<close>, joined by newlines.\<close>

definition data_check_string :: "(pystr \<times> pystr) list \<Rightarrow> pystr" where
  "data_check_string data = join [0x0A] (map (\<lambda>(k, v). k @ [0x3D] @ v) (sort data))"

text \<open>
  The function itself. \<open>current_time\<close> is the value of \<open>int(time.time())\<close> that the call
  reads. \<open>Inr\<close> is the returned boolean, \<open>Inl\<close> the exception raised.
\<close>

definition validate_init_data :: "pystr \<Rightarrow> pystr \<Rightarrow> int \<Rightarrow> int \<Rightarrow> error + bool" where
  "validate_init_data init_data bot_token expiration_time current_time =
     (case check_requirements data_requirements init_data of
        Some e \<Rightarrow> Inl e
      | None \<Rightarrow>
          (let parsed = dict_of (parse_qsl init_data) in
           case map_of parsed (lit ''hash'') of
             None \<Rightarrow> Inl (KeyError (lit ''hash''))
           | Some received_hash \<Rightarrow>
               (let data = AList.delete (lit ''hash'') parsed in
                case secret_key bot_token of
                  Inl e \<Rightarrow> Inl e
                | Inr key \<Rightarrow>
                    (case hmac_hash key (data_check_string data) of
                       Inl e \<Rightarrow> Inl e
                     | Inr calculated_hash \<Rightarrow>
                         if received_hash \<noteq> calculated_hash then Inr False
                         else
                           (case Option.bind (map_of data (lit ''auth_date'')) py_int of
                              None \<Rightarrow>
                                Inl (ValidationError
                                  (''Invalid '' @ [CHR 0x27] @ ''auth_date'' @ [CHR 0x27]
                                     @ '' value in init_data.''))
                            | Some auth_date \<Rightarrow>
                                if current_time - auth_date > expiration_time then Inr False
                                else Inr True)))))"

text \<open>
  The values a call computes on its way, as functions of the payload: the Received
  Signature (\<open>None\<close> when the decoded fields have no \<open>hash\<close>), the dictionary after
  \<open>pop\<close>, the Computed Signature, and the Auth Timestamp (\<open>None\<close> when the field is
  missing or \<open>int\<close> refuses it).
\<close>

definition received_hash :: "pystr \<Rightarrow> pystr option" where
  "received_hash init_data = map_of (dict_of (parse_qsl init_data)) (lit ''hash'')"

definition signed_data :: "pystr \<Rightarrow> (pystr \<times> pystr) list" where
  "signed_data init_data = AList.delete (lit ''hash'') (dict_of (parse_qsl init_data))"

definition calculated_hash :: "pystr \<Rightarrow> pystr \<Rightarrow> error + pystr" where
  "calculated_hash init_data bot_token =
     (case secret_key bot_token of
        Inl e \<Rightarrow> Inl e
      | Inr key \<Rightarrow> hmac_hash key (data_check_string (signed_data init_data)))"

definition auth_date :: "pystr \<Rightarrow> int option" where
  "auth_date init_data = Option.bind (map_of (signed_data init_data) (lit ''auth_date'')) py_int"

definition missing_message :: "string \<Rightarrow> string" where
  "missing_message data_req = ''Invalid format: Missing '' @ data_req @ '' in init_data.''"

definition auth_date_message :: string where
  "auth_date_message =
     ''Invalid '' @ [CHR 0x27] @ ''auth_date'' @ [CHR 0x27] @ '' value in init_data.''"

text \<open>
  The issuing side: the signature of the fields of a query string under a bot token, and
  the query string with that signature appended as its \<open>hash\<close> field.
\<close>

definition sign :: "pystr \<Rightarrow> pystr \<Rightarrow> pystr" where
  "sign bot_token qs = (case calculated_hash qs bot_token of Inl e \<Rightarrow> [] | Inr h \<Rightarrow> h)"

definition signed_payload :: "pystr \<Rightarrow> pystr \<Rightarrow> pystr" where
  "signed_payload bot_token qs = qs @ lit ''&hash='' @ sign bot_token qs"

text \<open>Non-empty lowercase hexadecimal text, the shape of a signature.\<close>

definition hexlike :: "pystr \<Rightarrow> bool" where
  "hexlike h = (h \<noteq> [] \<and> set h \<subseteq> set (lit ''0123456789abcdef''))"

text \<open>
  The scenario of the specification: the token \<open>123456:ABC\<close> and the four fields
  below. Python's \<open>hmac\<close> gives
  \<open>84f97bc3ebd3ad67aff152fb1090cfe2a149365a9eed32a1ea8eeea4572cb444\<close> for their signature.
\<close>

definition example_token :: pystr where
  "example_token = lit ''123456:ABC''"

definition example_fields :: pystr where
  "example_fields =
     lit ''user=%7B%22id%22%3A1%7D&chat_instance=1&chat_type=private&auth_date=1700000000''"

text \<open>The same fields with a timestamp that is not a number.\<close>

definition example_fields_abc :: pystr where
  "example_fields_abc =
     lit ''user=%7B%22id%22%3A1%7D&chat_instance=1&chat_type=private&auth_date=abc''"

section \<open>Digests and signatures\<close>

lemma length_word_bytes: "length (word_bytes w) = 4"
  by (simp add: word_bytes_def)

lemma length_state_bytes: "length (state_bytes s) = 32"
  by (cases s rule: state_bytes.cases) (simp add: length_word_bytes)

lemma length_sha256: "length (sha256 m) = 32"
  by (simp add: sha256_def length_state_bytes)

lemma length_hmac_sha256: "length (hmac_sha256 key msg) = 32"
  by (simp add: hmac_sha256_def Let_def length_sha256)

lemma hexdigit_lower: "n < 16 \<Longrightarrow> hexdigit n \<in> set ''0123456789abcdef''"
  unfolding hexdigit_def by (rule nth_mem) simp

lemma length_hex: "length (hex bs) = 2 * length bs"
  by (induction bs) (simp_all add: hex_def)

lemma set_hex: "set (hex bs) \<subseteq> set ''0123456789abcdef''"
proof (induction bs)
  case Nil
  show ?case by (simp add: hex_def)
next
  case (Cons b bs)
  have "unat b < 256"
    using unsigned_less [of b] by simp
  then have hi: "unat b div 16 < 16"
    by simp
  have lo: "unat b mod 16 < 16"
    by simp
  have "hex (b # bs) = hexdigit (unat b div 16) # hexdigit (unat b mod 16) # hex bs"
    by (simp add: hex_def)
  with Cons hexdigit_lower [OF hi] hexdigit_lower [OF lo] show ?case
    by simp
qed

lemma encode_utf8_ascii: "\<forall>c\<in>set s. c < 0x80 \<Longrightarrow> encode_utf8 s = Inr (map of_nat s)"
  by (induction s) (simp_all add: utf8_char_def)

text \<open>
  C9. When the bot token has a UTF-8 encoding, the Secret Material is the HMAC-SHA-256
  digest of the token's UTF-8 octets keyed with the ASCII literal \<open>WebAppData\<close>, and it
  has 32 octets. When the canonical string has a UTF-8 encoding, the Computed Signature
  is the hexadecimal encoding of the HMAC-SHA-256 digest of its octets keyed with the
  given key; it has 64 characters, all of them in \<open>0123456789abcdef\<close>.
\<close>

theorem secret_key_and_hmac_hash_are_hmac_sha256:
  assumes "encode_utf8 bot_token = Inr token_bytes"
    and "encode_utf8 canonical = Inr msg"
  shows "secret_key bot_token = Inr (hmac_sha256 (map of_char ''WebAppData'') token_bytes)
       \<and> length (hmac_sha256 (map of_char ''WebAppData'') token_bytes) = 32
       \<and> hmac_hash key canonical = Inr (lit (hex (hmac_sha256 key msg)))
       \<and> length (lit (hex (hmac_sha256 key msg))) = 64
       \<and> set (hex (hmac_sha256 key msg)) \<subseteq> set ''0123456789abcdef''"
  using assms set_hex [of "hmac_sha256 key msg"]
  by (simp add: secret_key_def hmac_hash_def lit_def length_hex length_hmac_sha256)

theorem secret_key_and_hmac_hash_witness:
  "secret_key (lit ''123456:ABC'')
     = Inr (hmac_sha256 (map of_char ''WebAppData'') (map of_char ''123456:ABC''))
   \<and> length (hmac_sha256 (map of_char ''WebAppData'') (map of_char ''123456:ABC'')) = 32
   \<and> hmac_hash (replicate 32 7) (lit ''auth_date=1700000000'')
     = Inr (lit (hex (hmac_sha256 (replicate 32 7) (map of_char ''auth_date=1700000000''))))
   \<and> length (lit (hex (hmac_sha256 (replicate 32 7) (map of_char ''auth_date=1700000000'')))) = 64
   \<and> set (hex (hmac_sha256 (replicate 32 7) (map of_char ''auth_date=1700000000'')))
       \<subseteq> set ''0123456789abcdef''"
proof -
  have tok: "encode_utf8 (lit ''123456:ABC'') = Inr (map of_char ''123456:ABC'')"
    by (simp add: lit_def utf8_char_def)
  have msg: "encode_utf8 (lit ''auth_date=1700000000'') = Inr (map of_char ''auth_date=1700000000'')"
    by (simp add: lit_def utf8_char_def)
  show ?thesis
    by (rule secret_key_and_hmac_hash_are_hmac_sha256 [OF tok msg])
qed

section \<open>The run of \<open>validate_init_data\<close>\<close>

lemma validate_init_data_run:
  "validate_init_data p tok expiry now =
     (case check_requirements data_requirements p of
        Some e \<Rightarrow> Inl e
      | None \<Rightarrow>
          (case received_hash p of
             None \<Rightarrow> Inl (KeyError (lit ''hash''))
           | Some h \<Rightarrow>
               (case calculated_hash p tok of
                  Inl e \<Rightarrow> Inl e
                | Inr c \<Rightarrow>
                    if h \<noteq> c then Inr False
                    else
                      (case auth_date p of
                         None \<Rightarrow> Inl (ValidationError auth_date_message)
                       | Some a \<Rightarrow> if now - a > expiry then Inr False else Inr True))))"
  by (simp add: validate_init_data_def received_hash_def calculated_hash_def auth_date_def
      signed_data_def auth_date_message_def Let_def
      split: option.split sum.split)

lemma check_requirements_None:
  "check_requirements rs p = None \<longleftrightarrow> (\<forall>w\<in>set rs. sublist (lit w) p)"
  by (induction rs) simp_all

lemma check_requirements_Some:
  "check_requirements rs p = Some e \<Longrightarrow>
     \<exists>w\<in>set rs. \<not> sublist (lit w) p \<and> e = ValidationError (missing_message w)"
  by (induction rs) (auto simp: missing_message_def split: if_splits)

section \<open>Query strings that end in a signature\<close>

lemma split_on_not_Nil: "split_on sep s \<noteq> []"
  by (induction s) (auto split: list.split)

lemma split_on_no_sep: "sep \<notin> set s \<Longrightarrow> split_on sep s = [s]"
  by (induction s) auto

lemma split_on_snoc_field: "sep \<notin> set ys \<Longrightarrow> split_on sep (xs @ sep # ys) = split_on sep xs @ [ys]"
  by (induction xs) (auto simp: split_on_no_sep split_on_not_Nil split: list.split)

lemma parse_fields_append: "parse_fields (xs @ ys) = parse_fields xs @ parse_fields ys"
  by (induction xs) (auto split: prod.split)

lemma parse_qsl_fields: "parse_qsl p = parse_fields (split_on 0x26 p)"
  by (simp add: parse_qsl_def)

lemma unquote_plus_hexlike: "hexlike h \<Longrightarrow> unquote_plus h = h"
proof -
  assume h: "hexlike h"
  then have a: "0x25 \<notin> set h" and b: "0x2B \<notin> set h"
    by (auto simp: hexlike_def lit_def)
  from b have "map (\<lambda>c. if c = 0x2B then 0x20 else c) h = h"
    by (induction h) auto
  with a show ?thesis
    by (simp add: unquote_plus_def unquote_def)
qed

lemma partition_hash_field: "partition_on 0x3D (lit ''hash='' @ h) = (lit ''hash'', [0x3D], h)"
  by (simp add: lit_def partition_on_def)

lemma unquote_plus_hash: "unquote_plus (lit ''hash'') = lit ''hash''"
  by (simp add: lit_def unquote_plus_def unquote_def)

lemma parse_hash_field:
  assumes "hexlike h"
  shows "parse_fields [lit ''hash='' @ h] = [(lit ''hash'', h)]"
proof -
  have "h \<noteq> []"
    using assms by (simp add: hexlike_def)
  then show ?thesis
    by (simp add: partition_hash_field unquote_plus_hash unquote_plus_hexlike [OF assms])
qed

lemma hexlike_no_amp: "hexlike h \<Longrightarrow> 0x26 \<notin> set (lit ''hash='' @ h)"
  by (auto simp: hexlike_def lit_def)

lemma parse_qsl_with_hash:
  assumes "hexlike h"
  shows "parse_qsl (qs @ lit ''&hash='' @ h) = parse_qsl qs @ [(lit ''hash'', h)]"
proof -
  have "qs @ lit ''&hash='' @ h = qs @ 0x26 # (lit ''hash='' @ h)"
    by (simp add: lit_def)
  then have "parse_qsl (qs @ lit ''&hash='' @ h)
      = parse_fields (split_on 0x26 qs @ [lit ''hash='' @ h])"
    using split_on_snoc_field [OF hexlike_no_amp [OF assms], of qs]
    by (simp only: parse_qsl_fields)
  also have "\<dots> = parse_fields (split_on 0x26 qs) @ parse_fields [lit ''hash='' @ h]"
    by (rule parse_fields_append)
  finally show ?thesis
    by (simp only: parse_hash_field [OF assms] parse_qsl_fields)
qed

lemma dict_of_snoc: "dict_of (ps @ [(k, v)]) = AList.update k v (dict_of ps)"
  by (simp add: dict_of_def)

lemma received_hash_with_hash:
  "hexlike h \<Longrightarrow> received_hash (qs @ lit ''&hash='' @ h) = Some h"
  by (simp add: received_hash_def parse_qsl_with_hash dict_of_snoc update_conv')

lemma signed_data_with_hash:
  "hexlike h \<Longrightarrow> signed_data (qs @ lit ''&hash='' @ h) = signed_data qs"
  by (simp add: signed_data_def parse_qsl_with_hash dict_of_snoc delete_update_same)

lemma calculated_hash_with_hash:
  "hexlike h \<Longrightarrow> calculated_hash (qs @ lit ''&hash='' @ h) tok = calculated_hash qs tok"
  by (simp add: calculated_hash_def signed_data_with_hash cong: sum.case_cong)

lemma auth_date_with_hash:
  "hexlike h \<Longrightarrow> auth_date (qs @ lit ''&hash='' @ h) = auth_date qs"
  by (simp add: auth_date_def signed_data_with_hash)

lemma calculated_hash_hexlike:
  assumes "calculated_hash qs tok = Inr c"
  shows "hexlike c \<and> length c = 64"
proof -
  from assms obtain key msg where c: "c = lit (hex (hmac_sha256 key msg))"
    by (auto simp: calculated_hash_def hmac_hash_def split: sum.splits)
  have "length c = 64"
    by (simp add: c lit_def length_hex length_hmac_sha256)
  moreover have "set c \<subseteq> set (lit ''0123456789abcdef'')"
    unfolding c lit_def set_map by (rule image_mono) (rule set_hex)
  ultimately show ?thesis
    by (auto simp: hexlike_def)
qed

lemma check_requirements_with_hash:
  assumes "check_requirements [''user'', ''chat_instance'', ''chat_type'', ''auth_date''] qs = None"
  shows "check_requirements data_requirements (qs @ lit ''&hash='' @ h) = None"
proof -
  have "sublist (lit ''hash'') (qs @ lit ''&hash='' @ h)"
  proof -
    have "qs @ lit ''&hash='' @ h = (qs @ [0x26]) @ lit ''hash'' @ (0x3D # h)"
      by (simp add: lit_def)
    then show ?thesis
      by (simp only: sublist_appendI)
  qed
  moreover have "sublist w qs \<Longrightarrow> sublist w (qs @ r)" for w r
    by (auto simp: sublist_append)
  moreover have "\<forall>w\<in>set [''user'', ''chat_instance'', ''chat_type'', ''auth_date'']. sublist (lit w) qs"
    using assms by (simp only: check_requirements_None)
  ultimately show ?thesis
    unfolding check_requirements_None data_requirements_def by auto
qed

section \<open>Signed payloads\<close>

lemma calculated_hash_sign: "calculated_hash qs tok = Inr c \<Longrightarrow> sign tok qs = c"
  by (simp add: sign_def)

lemma signed_payload_run:
  assumes req: "check_requirements [''user'', ''chat_instance'', ''chat_type'', ''auth_date''] qs = None"
    and calc: "calculated_hash qs tok = Inr c"
  shows "check_requirements data_requirements (signed_payload tok qs) = None"
    and "received_hash (signed_payload tok qs) = Some c"
    and "calculated_hash (signed_payload tok qs) tok = Inr c"
    and "auth_date (signed_payload tok qs) = auth_date qs"
    and "signed_data (signed_payload tok qs) = signed_data qs"
proof -
  have c: "sign tok qs = c"
    by (rule calculated_hash_sign [OF calc])
  have h: "hexlike c"
    using calculated_hash_hexlike [OF calc] by simp
  show "check_requirements data_requirements (signed_payload tok qs) = None"
    unfolding signed_payload_def by (rule check_requirements_with_hash [OF req])
  show "received_hash (signed_payload tok qs) = Some c"
    unfolding signed_payload_def c by (rule received_hash_with_hash [OF h])
  show "calculated_hash (signed_payload tok qs) tok = Inr c"
    unfolding signed_payload_def c by (simp add: calculated_hash_with_hash [OF h] calc)
  show "auth_date (signed_payload tok qs) = auth_date qs"
    unfolding signed_payload_def c by (rule auth_date_with_hash [OF h])
  show "signed_data (signed_payload tok qs) = signed_data qs"
    unfolding signed_payload_def c by (rule signed_data_with_hash [OF h])
qed

lemma calculated_hash_defined:
  assumes "encode_utf8 tok = Inr tb"
    and "encode_utf8 (data_check_string (signed_data qs)) = Inr msg"
  shows "calculated_hash qs tok = Inr (sign tok qs)"
  using assms by (simp add: sign_def calculated_hash_def secret_key_def hmac_hash_def)

lemma example_token_encodes: "encode_utf8 example_token = Inr (map of_char ''123456:ABC'')"
  by code_simp

lemma example_fields_requirements:
  "check_requirements [''user'', ''chat_instance'', ''chat_type'', ''auth_date''] example_fields = None"
  by code_simp

lemma example_fields_canonical:
  "data_check_string (signed_data example_fields)
     = lit ''auth_date=1700000000'' @ [0x0A] @ lit ''chat_instance=1'' @ [0x0A]
       @ lit ''chat_type=private'' @ [0x0A] @ lit ''user={\"id\":1}''"
  by code_simp

lemma example_fields_encodes:
  "encode_utf8 (data_check_string (signed_data example_fields))
     = Inr (map of_nat (data_check_string (signed_data example_fields)))"
  by (rule encode_utf8_ascii) (simp add: example_fields_canonical lit_def)

lemma example_fields_auth_date: "auth_date example_fields = Some 1700000000"
  by code_simp

lemma example_calculated:
  "calculated_hash example_fields example_token = Inr (sign example_token example_fields)"
  by (rule calculated_hash_defined [OF example_token_encodes example_fields_encodes])

lemmas example_run =
  signed_payload_run [OF example_fields_requirements example_calculated]

lemma example_abc_requirements:
  "check_requirements [''user'', ''chat_instance'', ''chat_type'', ''auth_date''] example_fields_abc = None"
  by code_simp

lemma example_abc_canonical:
  "data_check_string (signed_data example_fields_abc)
     = lit ''auth_date=abc'' @ [0x0A] @ lit ''chat_instance=1'' @ [0x0A]
       @ lit ''chat_type=private'' @ [0x0A] @ lit ''user={\"id\":1}''"
  by code_simp

lemma example_abc_encodes:
  "encode_utf8 (data_check_string (signed_data example_fields_abc))
     = Inr (map of_nat (data_check_string (signed_data example_fields_abc)))"
  by (rule encode_utf8_ascii) (simp add: example_abc_canonical lit_def)

lemma example_abc_calculated:
  "calculated_hash example_fields_abc example_token = Inr (sign example_token example_fields_abc)"
  by (rule calculated_hash_defined [OF example_token_encodes example_abc_encodes])

lemma example_abc_field:
  "map_of (signed_data example_fields_abc) (lit ''auth_date'') = Some (lit ''abc'')"
  by code_simp

lemma py_int_abc: "py_int (lit ''abc'') = None"
  by code_simp

lemmas example_abc_run =
  signed_payload_run [OF example_abc_requirements example_abc_calculated]

lemma hexlike_00: "hexlike (lit ''00'')"
  by (simp add: hexlike_def lit_def)

lemma mismatch_00: "calculated_hash qs tok = Inr c \<Longrightarrow> lit ''00'' \<noteq> c"
  using calculated_hash_hexlike [of qs tok c] by (auto simp: lit_def)

text \<open>
  C1. \<open>validate_init_data\<close> returns \<open>True\<close> exactly when the call gets past the presence
  check, the Received Signature equals the Computed Signature over the canonical string,
  and the parsed \<open>auth_date\<close> is within the freshness window of the clock
  (\<open>now - auth_date \<le> expiry\<close>). It returns \<open>False\<close>, not an error, for a payload that
  passes the presence check and has a \<open>hash\<close> field and a Computed Signature, when the
  signatures differ or when the parsed \<open>auth_date\<close> is older than the window.
\<close>

theorem validate_true_iff_signature_and_fresh:
  "(validate_init_data p tok expiry now = Inr True \<longleftrightarrow>
      check_requirements data_requirements p = None
      \<and> (\<exists>h. received_hash p = Some h \<and> calculated_hash p tok = Inr h)
      \<and> (\<exists>a. auth_date p = Some a \<and> now - a \<le> expiry))
   \<and> (check_requirements data_requirements p = None
        \<and> received_hash p = Some h \<and> calculated_hash p tok = Inr c
        \<and> (h \<noteq> c \<or> (auth_date p = Some a \<and> expiry < now - a))
      \<longrightarrow> validate_init_data p tok expiry now = Inr False)"
  by (auto simp: validate_init_data_run split: option.splits sum.splits)

theorem validate_true_iff_witness:
  "validate_init_data (signed_payload example_token example_fields) example_token 3600 1700000100
     = Inr True
   \<and> validate_init_data (signed_payload example_token example_fields) example_token 3600 1700003601
     = Inr False
   \<and> validate_init_data (example_fields @ lit ''&hash=00'') example_token 3600 1700000100
     = Inr False"
proof -
  let ?p = "signed_payload example_token example_fields"
  let ?q = "example_fields @ lit ''&hash='' @ lit ''00''"
  let ?c = "sign example_token example_fields"
  have q: "check_requirements data_requirements ?q = None" "received_hash ?q = Some (lit ''00'')"
    "calculated_hash ?q example_token = Inr ?c"
    by (simp_all add: check_requirements_with_hash [OF example_fields_requirements]
        received_hash_with_hash [OF hexlike_00] calculated_hash_with_hash [OF hexlike_00]
        example_calculated)
  have "validate_init_data ?p example_token 3600 1700000100 = Inr True"
    using validate_true_iff_signature_and_fresh [of ?p example_token 3600 1700000100]
    by (simp add: example_run example_fields_auth_date)
  moreover have "validate_init_data ?p example_token 3600 1700003601 = Inr False"
    using validate_true_iff_signature_and_fresh
      [of ?p example_token 3600 1700003601 ?c ?c 1700000000]
    by (simp add: example_run example_fields_auth_date)
  moreover have "validate_init_data ?q example_token 3600 1700000100 = Inr False"
    using validate_true_iff_signature_and_fresh
      [of ?q example_token 3600 1700000100 "lit ''00''" ?c]
    by (simp add: q mismatch_00 [OF example_calculated])
  ultimately show ?thesis
    by (simp add: lit_def)
qed


text \<open>
  C2, as amended. For a payload that contains the five required names, whose Received
  Signature equals the Computed Signature and whose \<open>auth_date\<close> field is not a number
  for \<open>int\<close>, \<open>validate_init_data\<close> raises \<open>ValidationError\<close> about \<open>auth_date\<close>. (When the
  signatures differ the function has returned \<open>False\<close> before it reads the field: see the
  counterexample.)
\<close>

theorem unparseable_auth_date_raises_when_signature_matches:
  assumes "check_requirements data_requirements p = None"
    and "received_hash p = Some h"
    and "calculated_hash p tok = Inr h"
    and "map_of (signed_data p) (lit ''auth_date'') = Some v"
    and "py_int v = None"
  shows "validate_init_data p tok expiry now = Inl (ValidationError auth_date_message)"
  using assms by (simp add: validate_init_data_run auth_date_def)

theorem unparseable_auth_date_witness:
  "validate_init_data (signed_payload example_token example_fields_abc) example_token 3600 1700000100
     = Inl (ValidationError auth_date_message)"
proof -
  let ?p = "signed_payload example_token example_fields_abc"
  have "map_of (signed_data ?p) (lit ''auth_date'') = Some (lit ''abc'')"
    by (simp add: example_abc_run example_abc_field)
  then show ?thesis
    by (rule unparseable_auth_date_raises_when_signature_matches
        [OF example_abc_run(1) example_abc_run(2) example_abc_run(3) _ py_int_abc])
qed

lemma example_abc_00:
  "check_requirements data_requirements (example_fields_abc @ lit ''&hash=00'') = None"
  "received_hash (example_fields_abc @ lit ''&hash=00'') = Some (lit ''00'')"
  "calculated_hash (example_fields_abc @ lit ''&hash=00'') example_token
     = Inr (sign example_token example_fields_abc)"
  "signed_data (example_fields_abc @ lit ''&hash=00'') = signed_data example_fields_abc"
proof -
  have eq: "example_fields_abc @ lit ''&hash=00'' = example_fields_abc @ lit ''&hash='' @ lit ''00''"
    by (simp add: lit_def)
  show "check_requirements data_requirements (example_fields_abc @ lit ''&hash=00'') = None"
    unfolding eq by (rule check_requirements_with_hash [OF example_abc_requirements])
  show "received_hash (example_fields_abc @ lit ''&hash=00'') = Some (lit ''00'')"
    unfolding eq by (rule received_hash_with_hash [OF hexlike_00])
  show "calculated_hash (example_fields_abc @ lit ''&hash=00'') example_token
     = Inr (sign example_token example_fields_abc)"
    unfolding eq by (simp add: calculated_hash_with_hash [OF hexlike_00] example_abc_calculated)
  show "signed_data (example_fields_abc @ lit ''&hash=00'') = signed_data example_fields_abc"
    unfolding eq by (rule signed_data_with_hash [OF hexlike_00])
qed

text \<open>
  C2 as stated fails: this payload contains the five required names and its \<open>auth_date\<close>
  is \<open>abc\<close>, yet the call returns \<open>False\<close>, because its \<open>hash\<close> is not the signature.
\<close>

theorem unparseable_auth_date_counterexample:
  "check_requirements data_requirements (example_fields_abc @ lit ''&hash=00'') = None
   \<and> map_of (signed_data (example_fields_abc @ lit ''&hash=00'')) (lit ''auth_date'')
       = Some (lit ''abc'')
   \<and> py_int (lit ''abc'') = None
   \<and> validate_init_data (example_fields_abc @ lit ''&hash=00'') example_token 3600 1700000100
       = Inr False"
  by (simp add: validate_init_data_run example_abc_00 example_abc_field py_int_abc
      mismatch_00 [OF example_abc_calculated])

text \<open>
  C3. The payload below has the word \<open>hash\<close> only inside the value of the field \<open>x\<close>. It
  passes the presence check, its decoded fields have no \<open>hash\<close>, and the call ends in the
  \<open>KeyError\<close> of \<open>dict.pop\<close>, not in a \<open>ValidationError\<close>.
\<close>

theorem hash_only_in_a_value_raises_KeyError:
  "validate_init_data
     (lit ''user=1&chat_instance=1&chat_type=private&auth_date=1&x=hash'')
     (lit ''123456:ABC'') 3600 1700000000
   = Inl (KeyError (lit ''hash''))"
  by code_simp

text \<open>
  C4. When the Received Signature differs from the Computed Signature the result is
  \<open>False\<close>, for every clock value and every threshold, and whatever the \<open>auth_date\<close> field
  holds (nothing is assumed about it: it may be missing or not a number).
\<close>

theorem signature_mismatch_returns_False:
  assumes "check_requirements data_requirements p = None"
    and "received_hash p = Some h"
    and "calculated_hash p tok = Inr c"
    and "h \<noteq> c"
  shows "validate_init_data p tok expiry now = Inr False"
  using assms by (simp add: validate_init_data_run)

theorem signature_mismatch_witness:
  "validate_init_data (example_fields_abc @ lit ''&hash=00'') example_token 3600 1700000100
     = Inr False
   \<and> validate_init_data (example_fields_abc @ lit ''&hash=00'') example_token 0 0 = Inr False
   \<and> auth_date (example_fields_abc @ lit ''&hash=00'') = None"
proof -
  have "auth_date (example_fields_abc @ lit ''&hash=00'') = None"
    by (simp add: auth_date_def example_abc_00 example_abc_field py_int_abc)
  then show ?thesis
    using signature_mismatch_returns_False
      [OF example_abc_00(1) example_abc_00(2) example_abc_00(3) mismatch_00 [OF example_abc_calculated]]
    by simp
qed

text \<open>
  C7. For a correctly signed payload the boundary is inclusive: with \<open>auth_date\<close> equal to
  \<open>now - expiry\<close> the result is \<open>True\<close>, with \<open>auth_date\<close> equal to \<open>now - expiry - 1\<close> it is
  \<open>False\<close>.
\<close>

theorem expiry_boundary_is_inclusive:
  assumes "check_requirements data_requirements p = None"
    and "received_hash p = Some h"
    and "calculated_hash p tok = Inr h"
    and "auth_date p = Some a"
  shows "(a = now - expiry \<longrightarrow> validate_init_data p tok expiry now = Inr True)
       \<and> (a = now - expiry - 1 \<longrightarrow> validate_init_data p tok expiry now = Inr False)"
  using assms by (simp add: validate_init_data_run)

theorem expiry_boundary_witness:
  "validate_init_data (signed_payload example_token example_fields) example_token 3600 1700003600
     = Inr True
   \<and> validate_init_data (signed_payload example_token example_fields) example_token 3600 1700003601
     = Inr False"
proof -
  have a: "auth_date (signed_payload example_token example_fields) = Some 1700000000"
    by (simp add: example_run example_fields_auth_date)
  show ?thesis
    using expiry_boundary_is_inclusive
        [OF example_run(1) example_run(2) example_run(3) a, of 1700003600 3600]
      expiry_boundary_is_inclusive
        [OF example_run(1) example_run(2) example_run(3) a, of 1700003601 3600]
    by simp
qed

text \<open>
  C8. A correctly signed payload whose \<open>auth_date\<close> is later than the clock is fresh: the
  result is \<open>True\<close> for every threshold that is not negative.
\<close>

theorem future_auth_date_is_fresh:
  assumes "check_requirements data_requirements p = None"
    and "received_hash p = Some h"
    and "calculated_hash p tok = Inr h"
    and "auth_date p = Some a"
    and "now < a"
    and "0 \<le> expiry"
  shows "validate_init_data p tok expiry now = Inr True"
  using assms by (simp add: validate_init_data_run)

theorem future_auth_date_witness:
  "validate_init_data (signed_payload example_token example_fields) example_token 0 1600000000
     = Inr True"
proof -
  have a: "auth_date (signed_payload example_token example_fields) = Some 1700000000"
    by (simp add: example_run example_fields_auth_date)
  show ?thesis
    by (rule future_auth_date_is_fresh [OF example_run(1) example_run(2) example_run(3) a]) simp_all
qed

lemma encode_utf8_error: "encode_utf8 s = Inl e \<Longrightarrow> e = UnicodeEncodeError"
  by (induction s arbitrary: e) (auto split: option.splits sum.splits)

lemma calculated_hash_error: "calculated_hash p tok = Inl e \<Longrightarrow> e = UnicodeEncodeError"
  by (auto simp: calculated_hash_def secret_key_def hmac_hash_def
      split: sum.splits dest: encode_utf8_error)

lemma auth_date_message_not_missing: "auth_date_message \<noteq> missing_message w"
  by (simp add: auth_date_message_def missing_message_def)

text \<open>
  C6. When one of \<open>user\<close>, \<open>chat_instance\<close>, \<open>chat_type\<close>, \<open>auth_date\<close>, \<open>hash\<close> does not
  occur in the raw payload as a substring, \<open>validate_init_data\<close> raises \<open>ValidationError\<close>
  with the message that names a missing field. Conversely, when each of the five occurs
  somewhere in the text (be it only inside a value), the presence check passes and no
  such error is raised.
\<close>

theorem presence_check_is_substring_based:
  "((\<exists>w\<in>set data_requirements. \<not> sublist (lit w) p) \<longrightarrow>
      (\<exists>w\<in>set data_requirements. \<not> sublist (lit w) p
         \<and> validate_init_data p tok expiry now = Inl (ValidationError (missing_message w))))
   \<and> ((\<forall>w\<in>set data_requirements. sublist (lit w) p) \<longrightarrow>
        check_requirements data_requirements p = None
        \<and> (\<forall>w. validate_init_data p tok expiry now \<noteq> Inl (ValidationError (missing_message w))))"
proof (intro conjI impI)
  assume "\<exists>w\<in>set data_requirements. \<not> sublist (lit w) p"
  then have "check_requirements data_requirements p \<noteq> None"
    by (simp add: check_requirements_None)
  then obtain e where e: "check_requirements data_requirements p = Some e"
    by auto
  from check_requirements_Some [OF e] e
  show "\<exists>w\<in>set data_requirements. \<not> sublist (lit w) p
         \<and> validate_init_data p tok expiry now = Inl (ValidationError (missing_message w))"
    by (auto simp: validate_init_data_run)
next
  assume all: "\<forall>w\<in>set data_requirements. sublist (lit w) p"
  then show "check_requirements data_requirements p = None"
    by (simp add: check_requirements_None)
  then show "\<forall>w. validate_init_data p tok expiry now \<noteq> Inl (ValidationError (missing_message w))"
    by (auto simp: validate_init_data_run auth_date_message_not_missing
        split: option.splits sum.splits dest: calculated_hash_error)
qed

section \<open>The order of the fields\<close>

lemma join_split_on: "join [sep] (split_on sep p) = p"
proof (induction p)
  case Nil
  show ?case by simp
next
  case (Cons c cs)
  obtain s ss where s: "split_on sep cs = s # ss"
    using split_on_not_Nil [of sep cs] by (cases "split_on sep cs") auto
  show ?case
  proof (cases "c = sep")
    case True
    with Cons s show ?thesis by simp
  next
    case False
    with Cons s show ?thesis by (cases ss) auto
  qed
qed

lemma sublist_sep_Cons:
  assumes "w \<noteq> []" and "sep \<notin> set w"
  shows "sublist w (x @ sep # rest) \<longleftrightarrow> sublist w x \<or> sublist w rest"
proof
  assume "sublist w (x @ sep # rest)"
  then consider "sublist w x" | "sublist w (sep # rest)"
    | w1 w2 where "w = w1 @ w2" "suffix w1 x" "prefix w2 (sep # rest)"
    by (auto simp: sublist_append)
  then show "sublist w x \<or> sublist w rest"
  proof cases
    case 1
    then show ?thesis by simp
  next
    case 2
    moreover have "\<not> prefix w (sep # rest)"
      using assms by (cases w) auto
    ultimately show ?thesis
      by (simp add: sublist_Cons_right)
  next
    case 3
    have "w2 = []"
      using 3 assms by (cases w2) auto
    with 3 have "suffix w x" by simp
    then show ?thesis
      by (auto intro: suffix_imp_sublist)
  qed
next
  assume "sublist w x \<or> sublist w rest"
  then show "sublist w (x @ sep # rest)"
    by (auto simp: sublist_append sublist_Cons_right)
qed

lemma sublist_join:
  assumes "w \<noteq> []" and "sep \<notin> set w"
  shows "sublist w (join [sep] segs) \<longleftrightarrow> (\<exists>f\<in>set segs. sublist w f)"
proof (induction segs)
  case Nil
  show ?case using assms by simp
next
  case (Cons x rest)
  show ?case
  proof (cases rest)
    case Nil
    then show ?thesis by simp
  next
    case (Cons y zs)
    have "sublist w (join [sep] (x # y # zs))
        \<longleftrightarrow> sublist w x \<or> sublist w (join [sep] (y # zs))"
      using sublist_sep_Cons [OF assms, of x "join [sep] (y # zs)"] by simp
    with Cons.IH Cons show ?thesis by simp
  qed
qed

lemma sublist_fields:
  assumes "w \<noteq> []" and "sep \<notin> set w"
  shows "sublist w p \<longleftrightarrow> (\<exists>f\<in>set (split_on sep p). sublist w f)"
  using sublist_join [OF assms, of "split_on sep p"] by (simp add: join_split_on)

lemma check_requirements_fields:
  assumes "set (split_on 0x26 p') = set (split_on 0x26 p)"
  shows "check_requirements data_requirements p' = check_requirements data_requirements p"
proof -
  have "sublist (lit w) p' \<longleftrightarrow> sublist (lit w) p" if "w \<in> set data_requirements" for w
  proof -
    have "lit w \<noteq> []" "0x26 \<notin> set (lit w)"
      using that by (auto simp: data_requirements_def lit_def)
    then show ?thesis
      using assms by (simp add: sublist_fields [of "lit w" "0x26"])
  qed
  then have "check_requirements rs p' = check_requirements rs p" if "set rs \<subseteq> set data_requirements" for rs
    using that by (induction rs) auto
  then show ?thesis by simp
qed

lemma parse_fields_concat: "parse_fields fs = concat (map (\<lambda>f. parse_fields [f]) fs)"
  by (induction fs) (auto split: prod.split)

lemma mset_concat_map:
  "mset (concat (map g zs)) = sum_mset (image_mset (\<lambda>x. mset (g x)) (mset zs))"
  by (induction zs) simp_all

lemma mset_parse_fields:
  assumes "mset fs' = mset fs"
  shows "mset (parse_fields fs') = mset (parse_fields fs)"
proof -
  have "mset (concat (map (\<lambda>f. parse_fields [f]) fs'))
      = mset (concat (map (\<lambda>f. parse_fields [f]) fs))"
    by (simp only: mset_concat_map assms)
  then show ?thesis
    by (simp only: parse_fields_concat [symmetric])
qed

lemma update_fresh: "k \<notin> fst ` set d \<Longrightarrow> AList.update k v d = d @ [(k, v)]"
  by (induction d) auto

lemma foldl_update_distinct:
  "distinct (map fst (d @ ps)) \<Longrightarrow> foldl (\<lambda>d (k, v). AList.update k v d) d ps = d @ ps"
proof (induction ps arbitrary: d)
  case Nil
  show ?case by simp
next
  case (Cons kv ps)
  obtain k v where kv: "kv = (k, v)" by (cases kv)
  from Cons.prems have "k \<notin> fst ` set d"
    by (auto simp: kv)
  then have "AList.update k v d = d @ [(k, v)]"
    by (rule update_fresh)
  moreover from Cons.prems have "distinct (map fst ((d @ [(k, v)]) @ ps))"
    by (simp add: kv)
  ultimately show ?case
    using Cons.IH [of "d @ [(k, v)]"] by (simp add: kv)
qed

lemma dict_of_distinct: "distinct (map fst ps) \<Longrightarrow> dict_of ps = ps"
  using foldl_update_distinct [of "[]" ps] by (simp add: dict_of_def)

lemma sort_mset_cong:
  fixes xs ys :: "'a::linorder list"
  assumes "mset xs = mset ys"
  shows "sort xs = sort ys"
  by (rule properties_for_sort) (simp_all add: assms)

lemma permuted_fields:
  assumes perm: "mset (split_on 0x26 p') = mset (split_on 0x26 p)"
    and dist: "distinct (map fst (parse_qsl p))"
  shows "check_requirements data_requirements p' = check_requirements data_requirements p"
    and "received_hash p' = received_hash p"
    and "data_check_string (signed_data p') = data_check_string (signed_data p)"
    and "auth_date p' = auth_date p"
proof -
  have m: "mset (parse_qsl p') = mset (parse_qsl p)"
    using mset_parse_fields [OF perm] by (simp add: parse_qsl_fields)
  then have "mset (map fst (parse_qsl p')) = mset (map fst (parse_qsl p))"
    by simp
  then have "distinct (map fst (parse_qsl p')) \<longleftrightarrow> distinct (map fst (parse_qsl p))"
    by (rule mset_eq_imp_distinct_iff)
  with dist have dist': "distinct (map fst (parse_qsl p'))"
    by simp
  have d: "dict_of (parse_qsl p) = parse_qsl p" "dict_of (parse_qsl p') = parse_qsl p'"
    by (simp_all add: dict_of_distinct dist dist')
  have "set (parse_qsl p') = set (parse_qsl p)"
    using m by (rule mset_eq_setD)
  with dist dist' have mo: "map_of (parse_qsl p') = map_of (parse_qsl p)"
    by (simp add: map_of_inject_set)
  show "check_requirements data_requirements p' = check_requirements data_requirements p"
    by (rule check_requirements_fields) (rule mset_eq_setD [OF perm])
  show "received_hash p' = received_hash p"
    by (simp add: received_hash_def d mo)
  have "mset (signed_data p') = mset (signed_data p)"
    by (simp add: signed_data_def d AList.delete_eq m)
  then have "sort (signed_data p') = sort (signed_data p)"
    by (rule sort_mset_cong)
  then show "data_check_string (signed_data p') = data_check_string (signed_data p)"
    by (simp add: data_check_string_def)
  show "auth_date p' = auth_date p"
    by (simp add: auth_date_def signed_data_def d delete_conv' mo)
qed

lemma calculated_hash_cong:
  "data_check_string (signed_data p') = data_check_string (signed_data p)
    \<Longrightarrow> calculated_hash p' tok = calculated_hash p tok"
  by (simp add: calculated_hash_def cong: sum.case_cong)

text \<open>
  C5, as amended. For a payload whose decoded field names are pairwise distinct, every
  permutation of its \<open>&\<close>-separated \<open>key=value\<close> pairs (the \<open>hash\<close> pair included) has the
  same canonical string and the same result of \<open>validate_init_data\<close>.
\<close>

theorem field_order_is_irrelevant_for_distinct_names:
  assumes "mset (split_on 0x26 p') = mset (split_on 0x26 p)"
    and "distinct (map fst (parse_qsl p))"
  shows "data_check_string (signed_data p') = data_check_string (signed_data p)
       \<and> validate_init_data p' tok expiry now = validate_init_data p tok expiry now"
proof -
  note eqs = permuted_fields [OF assms]
  have "calculated_hash p' tok = calculated_hash p tok"
    by (rule calculated_hash_cong) (rule eqs(3))
  then show ?thesis
    by (simp add: validate_init_data_run eqs cong: option.case_cong sum.case_cong if_cong)
qed

lemma check_requirements_append:
  "check_requirements rs qs = None \<Longrightarrow> check_requirements rs (qs @ r) = None"
  by (auto simp: check_requirements_None sublist_append)

lemma split_on_field_Cons: "sep \<notin> set x \<Longrightarrow> split_on sep (x @ sep # rest) = x # split_on sep rest"
  by (induction x) auto

lemma split_on_with_hash:
  assumes "hexlike h"
  shows "split_on 0x26 (qs @ lit ''&hash='' @ h) = split_on 0x26 qs @ [lit ''hash='' @ h]"
proof -
  have "qs @ lit ''&hash='' @ h = qs @ 0x26 # (lit ''hash='' @ h)"
    by (simp add: lit_def)
  then show ?thesis
    using split_on_snoc_field [OF hexlike_no_amp [OF assms], of qs] by simp
qed

lemma example_hexlike: "hexlike (sign example_token example_fields)"
  using calculated_hash_hexlike [OF example_calculated] by simp

lemma example_fields_split:
  "split_on 0x26 example_fields
     = [lit ''user=%7B%22id%22%3A1%7D'', lit ''chat_instance=1'', lit ''chat_type=private'',
        lit ''auth_date=1700000000'']"
  by code_simp

lemma example_fields_parsed:
  "parse_qsl example_fields
     = [(lit ''user'', lit ''{\"id\":1}''), (lit ''chat_instance'', lit ''1''),
        (lit ''chat_type'', lit ''private''), (lit ''auth_date'', lit ''1700000000'')]"
  by code_simp

theorem field_order_witness:
  "validate_init_data
     (lit ''hash='' @ sign example_token example_fields
        @ lit ''&auth_date=1700000000&chat_type=private&user=%7B%22id%22%3A1%7D&chat_instance=1'')
     example_token 3600 1700000100
   = Inr True"
proof -
  let ?h = "sign example_token example_fields"
  let ?p = "signed_payload example_token example_fields"
  let ?p' = "lit ''hash='' @ ?h
     @ lit ''&auth_date=1700000000&chat_type=private&user=%7B%22id%22%3A1%7D&chat_instance=1''"
  have "?p' = (lit ''hash='' @ ?h) @ 0x26
      # lit ''auth_date=1700000000&chat_type=private&user=%7B%22id%22%3A1%7D&chat_instance=1''"
    by (simp add: lit_def)
  then have "split_on 0x26 ?p' = (lit ''hash='' @ ?h)
      # split_on 0x26 (lit ''auth_date=1700000000&chat_type=private&user=%7B%22id%22%3A1%7D&chat_instance=1'')"
    using split_on_field_Cons [OF hexlike_no_amp [OF example_hexlike]] by simp
  also have "split_on 0x26 (lit ''auth_date=1700000000&chat_type=private&user=%7B%22id%22%3A1%7D&chat_instance=1'')
      = [lit ''auth_date=1700000000'', lit ''chat_type=private'', lit ''user=%7B%22id%22%3A1%7D'',
         lit ''chat_instance=1'']"
    by code_simp
  finally have s': "split_on 0x26 ?p' = [lit ''hash='' @ ?h, lit ''auth_date=1700000000'',
      lit ''chat_type=private'', lit ''user=%7B%22id%22%3A1%7D'', lit ''chat_instance=1'']" .
  have s: "split_on 0x26 ?p = [lit ''user=%7B%22id%22%3A1%7D'', lit ''chat_instance=1'',
      lit ''chat_type=private'', lit ''auth_date=1700000000'', lit ''hash='' @ ?h]"
    by (simp add: signed_payload_def split_on_with_hash [OF example_hexlike] example_fields_split)
  have perm: "mset (split_on 0x26 ?p') = mset (split_on 0x26 ?p)"
    by (simp add: s s')
  have "parse_qsl ?p = parse_qsl example_fields @ [(lit ''hash'', ?h)]"
    by (simp add: signed_payload_def parse_qsl_with_hash [OF example_hexlike])
  then have dist: "distinct (map fst (parse_qsl ?p))"
    by (simp add: example_fields_parsed lit_def)
  have "validate_init_data ?p example_token 3600 1700000100 = Inr True"
    by (simp add: validate_init_data_run example_run example_fields_auth_date)
  with field_order_is_irrelevant_for_distinct_names [OF perm dist, of example_token 3600 1700000100]
  show ?thesis by simp
qed

lemma example_00_requirements:
  "check_requirements [''user'', ''chat_instance'', ''chat_type'', ''auth_date'']
     (example_fields @ lit ''&hash=00'') = None"
  by code_simp

lemma example_00_eq: "example_fields @ lit ''&hash=00'' = example_fields @ lit ''&hash='' @ lit ''00''"
  by (simp add: lit_def)

lemma example_00_calculated:
  "calculated_hash (example_fields @ lit ''&hash=00'') example_token
     = Inr (sign example_token example_fields)"
  unfolding example_00_eq
  by (simp add: calculated_hash_with_hash [OF hexlike_00] example_calculated)

text \<open>
  C5 as stated fails where a name occurs twice, because the later value wins: the two
  payloads below have the same pairs, \<open>hash=00\<close> and the valid signature in either
  order, and the call returns \<open>True\<close> for the one and \<open>False\<close> for the other.
\<close>

theorem field_order_counterexample:
  "mset (split_on 0x26 (signed_payload example_token example_fields @ lit ''&hash=00''))
     = mset (split_on 0x26 (signed_payload example_token (example_fields @ lit ''&hash=00'')))
   \<and> validate_init_data (signed_payload example_token (example_fields @ lit ''&hash=00''))
         example_token 3600 1700000100 = Inr True
   \<and> validate_init_data (signed_payload example_token example_fields @ lit ''&hash=00'')
         example_token 3600 1700000100 = Inr False"
proof -
  let ?h = "sign example_token example_fields"
  let ?q = "example_fields @ lit ''&hash=00''"
  let ?p1 = "signed_payload example_token ?q"
  let ?p = "signed_payload example_token example_fields"
  let ?p2 = "?p @ lit ''&hash=00''"
  have hq: "sign example_token ?q = ?h"
    by (rule calculated_hash_sign [OF example_00_calculated])
  note run1 = signed_payload_run [OF example_00_requirements example_00_calculated]
  have "auth_date ?q = Some 1700000000"
    unfolding example_00_eq by (simp add: auth_date_with_hash [OF hexlike_00] example_fields_auth_date)
  then have v1: "validate_init_data ?p1 example_token 3600 1700000100 = Inr True"
    by (simp add: validate_init_data_run run1)
  have p2: "?p2 = ?p @ lit ''&hash='' @ lit ''00''"
    by (simp add: lit_def)
  have "check_requirements [''user'', ''chat_instance'', ''chat_type'', ''auth_date''] ?p = None"
    unfolding signed_payload_def
    by (rule check_requirements_append [OF example_fields_requirements])
  then have "check_requirements data_requirements ?p2 = None"
    unfolding p2 by (rule check_requirements_with_hash)
  moreover have "received_hash ?p2 = Some (lit ''00'')"
    unfolding p2 by (rule received_hash_with_hash [OF hexlike_00])
  moreover have "calculated_hash ?p2 example_token = Inr ?h"
    unfolding p2 by (simp add: calculated_hash_with_hash [OF hexlike_00] example_run)
  ultimately have v2: "validate_init_data ?p2 example_token 3600 1700000100 = Inr False"
    by (simp add: validate_init_data_run mismatch_00 [OF example_calculated])
  have a: "split_on 0x26 (?q @ lit ''&hash='' @ ?h) = split_on 0x26 ?q @ [lit ''hash='' @ ?h]"
    by (rule split_on_with_hash [OF example_hexlike])
  have b: "split_on 0x26 ?q = split_on 0x26 example_fields @ [lit ''hash='' @ lit ''00'']"
    unfolding example_00_eq by (rule split_on_with_hash [OF hexlike_00])
  have c: "split_on 0x26 (?p @ lit ''&hash='' @ lit ''00'')
      = split_on 0x26 ?p @ [lit ''hash='' @ lit ''00'']"
    by (rule split_on_with_hash [OF hexlike_00])
  have d: "split_on 0x26 ?p = split_on 0x26 example_fields @ [lit ''hash='' @ ?h]"
    unfolding signed_payload_def by (rule split_on_with_hash [OF example_hexlike])
  have "split_on 0x26 ?p1
      = split_on 0x26 example_fields @ [lit ''hash='' @ lit ''00'', lit ''hash='' @ ?h]"
    unfolding signed_payload_def hq a b by simp
  moreover have "split_on 0x26 ?p2
      = split_on 0x26 example_fields @ [lit ''hash='' @ ?h, lit ''hash='' @ lit ''00'']"
    unfolding p2 c d by simp
  ultimately have "mset (split_on 0x26 ?p2) = mset (split_on 0x26 ?p1)"
    by simp
  with v1 v2 show ?thesis by simp
qed

theorem presence_check_witness:
  "validate_init_data (lit ''user=1&chat_instance=1&chat_type=private&auth_date=1'')
       example_token 3600 0
     = Inl (ValidationError (missing_message ''hash''))
   \<and> check_requirements data_requirements (lit ''x=user,chat_instance,chat_type,auth_date,hash'')
     = None"
proof -
  let ?p = "lit ''user=1&chat_instance=1&chat_type=private&auth_date=1''"
  let ?q = "lit ''x=user,chat_instance,chat_type,auth_date,hash''"
  have miss: "\<not> sublist (lit ''hash'') ?p"
    by code_simp
  have others: "sublist (lit ''user'') ?p" "sublist (lit ''chat_instance'') ?p"
    "sublist (lit ''chat_type'') ?p" "sublist (lit ''auth_date'') ?p"
    by code_simp+
  have "\<exists>w\<in>set data_requirements. \<not> sublist (lit w) ?p"
    using miss by (simp add: data_requirements_def)
  with presence_check_is_substring_based [of ?p example_token 3600 0]
  obtain w where w: "w \<in> set data_requirements" "\<not> sublist (lit w) ?p"
    "validate_init_data ?p example_token 3600 0 = Inl (ValidationError (missing_message w))"
    by blast
  from w(1,2) others have "w = ''hash''"
    by (auto simp: data_requirements_def)
  with w(3) have 1: "validate_init_data ?p example_token 3600 0
      = Inl (ValidationError (missing_message ''hash''))"
    by simp
  have "\<forall>w\<in>set data_requirements. sublist (lit w) ?q"
    by code_simp
  with presence_check_is_substring_based [of ?q example_token 3600 0]
  have "check_requirements data_requirements ?q = None"
    by blast
  with 1 show ?thesis by simp
qed

section \<open>Fields with an empty value\<close>

lemma parse_fields_keys:
  "(k, v) \<in> set (parse_fields fs) \<Longrightarrow>
     \<exists>f\<in>set fs. unquote_plus (fst (partition_on 0x3D f)) = k \<and> snd (snd (partition_on 0x3D f)) \<noteq> []"
  by (induction fs) (auto split: prod.splits if_splits)

lemma foldl_update_keys:
  "fst ` set (foldl (\<lambda>d (k, v). AList.update k v d) d ps) = fst ` set d \<union> fst ` set ps"
proof (induction ps arbitrary: d)
  case Nil
  show ?case by simp
next
  case (Cons kv ps)
  obtain k v where kv: "kv = (k, v)" by (cases kv)
  have "fst ` set (foldl (\<lambda>d (k, v). AList.update k v d) (AList.update k v d) ps)
      = fst ` set (AList.update k v d) \<union> fst ` set ps"
    by (rule Cons.IH)
  then show ?case
    by (auto simp: kv dom_update)
qed

lemma dict_of_keys: "fst ` set (dict_of ps) = fst ` set ps"
  by (simp add: dict_of_def foldl_update_keys)

lemma blank_field:
  assumes "0x3D \<notin> set name"
  shows "parse_fields [name @ [0x3D]] = []"
proof -
  have "dropWhile (\<lambda>c. c \<noteq> 0x3D) (name @ [0x3D]) = [0x3D]"
    using assms by (induction name) auto
  then show ?thesis
    by (simp add: partition_on_def)
qed

text \<open>
  C10. A field \<open>name=\<close> with an empty value contributes nothing to the decoded pairs.
  So when every field of the payload whose name decodes to \<open>k\<close> has an empty value, \<open>k\<close>
  is not a key of the decoded pairs, the Parsed Field Map has no entry for it, and no
  item of the canonical string has that key. For \<open>k = hash\<close> this is a parsed map with
  no \<open>hash\<close> entry.
\<close>

theorem blank_values_are_dropped:
  "(0x3D \<notin> set name \<longrightarrow> parse_fields (fs @ [name @ [0x3D]] @ gs) = parse_fields (fs @ gs))
   \<and> ((\<forall>f\<in>set (split_on 0x26 p).
          unquote_plus (fst (partition_on 0x3D f)) = k \<longrightarrow> snd (snd (partition_on 0x3D f)) = [])
        \<longrightarrow> k \<notin> fst ` set (parse_qsl p)
          \<and> map_of (dict_of (parse_qsl p)) k = None
          \<and> k \<notin> fst ` set (sort (signed_data p)))"
proof (intro conjI impI)
  assume name: "0x3D \<notin> set name"
  have "parse_fields (fs @ [name @ [0x3D]] @ gs)
      = parse_fields fs @ parse_fields [name @ [0x3D]] @ parse_fields gs"
    by (simp only: parse_fields_append)
  also have "\<dots> = parse_fields fs @ parse_fields gs"
    by (simp only: blank_field [OF name] append_Nil)
  finally show "parse_fields (fs @ [name @ [0x3D]] @ gs) = parse_fields (fs @ gs)"
    by (simp only: parse_fields_append)
next
  assume blank: "\<forall>f\<in>set (split_on 0x26 p).
      unquote_plus (fst (partition_on 0x3D f)) = k \<longrightarrow> snd (snd (partition_on 0x3D f)) = []"
  show k: "k \<notin> fst ` set (parse_qsl p)"
  proof
    assume "k \<in> fst ` set (parse_qsl p)"
    then obtain v where "(k, v) \<in> set (parse_fields (split_on 0x26 p))"
      by (auto simp: parse_qsl_fields)
    from parse_fields_keys [OF this] blank show False
      by blast
  qed
  then have d: "k \<notin> fst ` set (dict_of (parse_qsl p))"
    by (simp add: dict_of_keys)
  then show "map_of (dict_of (parse_qsl p)) k = None"
    by (simp add: map_of_eq_None_iff)
  from d dom_delete_subset [of "lit ''hash''" "dict_of (parse_qsl p)"]
  show "k \<notin> fst ` set (sort (signed_data p))"
    by (auto simp: signed_data_def)
qed

theorem blank_values_witness:
  "check_requirements data_requirements (lit ''user=1&chat_instance=1&chat_type=&auth_date=1&hash='')
     = None
   \<and> parse_qsl (lit ''user=1&chat_instance=1&chat_type=&auth_date=1&hash='')
     = [(lit ''user'', lit ''1''), (lit ''chat_instance'', lit ''1''), (lit ''auth_date'', lit ''1'')]
   \<and> map_of (dict_of (parse_qsl (lit ''user=1&chat_instance=1&chat_type=&auth_date=1&hash='')))
       (lit ''chat_type'') = None
   \<and> received_hash (lit ''user=1&chat_instance=1&chat_type=&auth_date=1&hash='') = None
   \<and> lit ''chat_type''
       \<notin> fst ` set (sort (signed_data (lit ''user=1&chat_instance=1&chat_type=&auth_date=1&hash='')))"
proof -
  let ?p = "lit ''user=1&chat_instance=1&chat_type=&auth_date=1&hash=''"
  have fields: "split_on 0x26 ?p
      = [lit ''user=1'', lit ''chat_instance=1'', lit ''chat_type='', lit ''auth_date=1'', lit ''hash='']"
    by code_simp
  have names: "map (\<lambda>f. unquote_plus (fst (partition_on 0x3D f))) (split_on 0x26 ?p)
      = [lit ''user'', lit ''chat_instance'', lit ''chat_type'', lit ''auth_date'', lit ''hash'']"
    by code_simp
  have vals: "map (\<lambda>f. snd (snd (partition_on 0x3D f))) (split_on 0x26 ?p)
      = [lit ''1'', lit ''1'', [], lit ''1'', []]"
    by code_simp
  have blank: "\<forall>f\<in>set (split_on 0x26 ?p).
      unquote_plus (fst (partition_on 0x3D f)) = k \<longrightarrow> snd (snd (partition_on 0x3D f)) = []"
    if "k = lit ''chat_type'' \<or> k = lit ''hash''" for k
    using that names vals unfolding fields by (auto simp: lit_def)
  have 1: "check_requirements data_requirements ?p = None"
    by code_simp
  have 2: "parse_qsl ?p
      = [(lit ''user'', lit ''1''), (lit ''chat_instance'', lit ''1''), (lit ''auth_date'', lit ''1'')]"
    by code_simp
  from blank_values_are_dropped [of "[]" "[]" "[]" ?p "lit ''chat_type''"] blank
  have 3: "map_of (dict_of (parse_qsl ?p)) (lit ''chat_type'') = None"
    "lit ''chat_type'' \<notin> fst ` set (sort (signed_data ?p))"
    by blast+
  from blank_values_are_dropped [of "[]" "[]" "[]" ?p "lit ''hash''"] blank
  have 4: "received_hash ?p = None"
    unfolding received_hash_def by blast
  from 1 2 3 4 show ?thesis by simp
qed

end
